theory Spec2Isabelle
  imports Main "HOL-Library.Word" "HOL-Library.Sublist"
begin

section \<open>Python values of the local PCIe transport\<close>

text \<open>
  The module \<^verbatim>\<open>transport_localpcie.py\<close> is modelled function by function. Python
  integers are \<^typ>\<open>int\<close>, byte strings are lists of 8-bit words, text strings are
  \<^typ>\<open>string\<close>. An exception is a value of type \<open>error\<close>; a method that mutates the
  session returns the session it leaves behind together with its outcome, so that the
  state after a raised exception is part of the model.
\<close>

type_synonym byte = "8 word"
type_synonym bytes = "byte list"

text \<open>
  A device specifier handed to \<^verbatim>\<open>read\<close> and \<^verbatim>\<open>blindwrite\<close> is a register name or
  a Python integer. A resolver target is a string or an integer.
\<close>

datatype device_name = DevStr string | DevInt int

datatype target = TStr string | TInt int

text \<open>
  The payload argument of \<^verbatim>\<open>blindwrite\<close>: a \<^verbatim>\<open>bytes\<close> object, some other object
  that has a length (\<^verbatim>\<open>str\<close>, \<^verbatim>\<open>bytearray\<close>, \<^verbatim>\<open>list\<close>, ...; only its length is
  kept), or an object on which \<^verbatim>\<open>len()\<close> raises (\<^verbatim>\<open>int\<close>, \<^verbatim>\<open>None\<close>, ...).
\<close>

datatype py_data = PyBytes bytes | PySized nat | PyUnsized

datatype value_error =
    InvalidLiteral string
  | CouldNotFindDevice device_name

datatype runtime_error =
    TemplateMismatch string "string option"
  | TargetNotRecognised target "(string \<times> string) list"

datatype error =
    AssertionError string
  | TypeError
  | ValueError value_error
  | IndexError
  | OSError string
  | RuntimeError runtime_error
  | ExternalError string

subsection \<open>Slices\<close>

text \<open>
  Python clamps the bounds of a slice \<^verbatim>\<open>xs[start:stop]\<close> to the length of the
  sequence: a negative bound counts from the end, and a bound beyond either end is
  moved to that end.
\<close>

definition adjust_index :: "int \<Rightarrow> int \<Rightarrow> int" where
  "adjust_index len i =
     (if i < 0 then (if i + len < 0 then 0 else i + len)
      else if len \<le> i then len else i)"

definition py_slice :: "'a list \<Rightarrow> int \<Rightarrow> int \<Rightarrow> 'a list" where
  "py_slice xs start stop =
     (let n = int (length xs);
          s = adjust_index n start;
          e = adjust_index n stop
      in take (nat (e - s)) (drop (nat s) xs))"

section \<open>The register window\<close>

definition AXIL_PCI_ADDR_TRANSLATION :: int where
  "AXIL_PCI_ADDR_TRANSLATION = 0x00000000"

definition MAP_SIZE :: int where
  "MAP_SIZE = 8 * 1024 * 1024"

text \<open>
  The mapping \<^verbatim>\<open>axil_mm\<close> is an \<^verbatim>\<open>mmap\<close> object of \<open>MAP_SIZE\<close> bytes: the byte at
  index \<open>i\<close> is \<open>mm i\<close>, and only indices below \<open>MAP_SIZE\<close> are ever read or written.
  Reading a slice clamps its bounds and copies what is left. Assigning to a slice
  clamps its bounds too, and raises \<^verbatim>\<open>IndexError\<close> (mmap slice assignment is wrong
  size) unless the value has exactly the length of the clamped slice.
\<close>

type_synonym mmap = "nat \<Rightarrow> byte"

definition mmap_getslice :: "mmap \<Rightarrow> int \<Rightarrow> int \<Rightarrow> bytes" where
  "mmap_getslice mm start stop =
     (let s = adjust_index MAP_SIZE start;
          e = adjust_index MAP_SIZE stop
      in if e \<le> s then [] else map mm [nat s ..< nat e])"

definition mmap_setslice :: "mmap \<Rightarrow> int \<Rightarrow> int \<Rightarrow> bytes \<Rightarrow> error + mmap" where
  "mmap_setslice mm start stop v =
     (let s = adjust_index MAP_SIZE start;
          e = adjust_index MAP_SIZE stop;
          slicelen = (if e \<le> s then 0 else e - s)
      in if int (length v) \<noteq> slicelen then Inl IndexError
         else Inr (\<lambda>i. if nat s \<le> i \<and> i < nat s + length v then v ! (i - nat s) else mm i))"

text \<open>
  The fields of a \<^verbatim>\<open>LocalPcieTransport\<close> object that the methods below touch.
  \<open>memory_devices\<close> is the name table of the base class (\<^verbatim>\<open>None\<close> until it is
  loaded), each entry reduced to its \<^verbatim>\<open>address\<close>.
\<close>

record session =
  memory_devices :: "(device_name \<rightharpoonup> int) option"
  axil_mm :: mmap
  fpg_template :: "string option"
  axid_dev :: string

definition get_device_address :: "session \<Rightarrow> device_name \<Rightarrow> error + int" where
  "get_device_address s device_name =
     (case (case memory_devices s of None \<Rightarrow> None | Some md \<Rightarrow> md device_name) of
        Some a \<Rightarrow> Inr a
      | None \<Rightarrow>
          (case device_name of
             DevInt n \<Rightarrow>
               if 0 \<le> n \<and> n < 2 ^ 32 then Inr n
               else Inl (ValueError (CouldNotFindDevice device_name))
           | DevStr _ \<Rightarrow> Inl (ValueError (CouldNotFindDevice device_name))))"

definition read :: "session \<Rightarrow> device_name \<Rightarrow> int \<Rightarrow> int \<Rightarrow> error + bytes" where
  "read s device_name sz offset =
     (case get_device_address s device_name of
        Inl e \<Rightarrow> Inl e
      | Inr a \<Rightarrow>
          (let addr = a - AXIL_PCI_ADDR_TRANSLATION + offset
           in Inr (mmap_getslice (axil_mm s) addr (addr + sz))))"

definition block_size :: int where
  "block_size = 4096"

text \<open>
  The body of the \<^verbatim>\<open>for\<close> loop of \<^verbatim>\<open>blindwrite\<close>, run for the given number of
  iterations. An exception of the slice assignment leaves the loop with the memory as
  the earlier iterations left it.
\<close>

fun blindwrite_loop :: "nat \<Rightarrow> int \<Rightarrow> bytes \<Rightarrow> int \<Rightarrow> mmap \<Rightarrow> (error + unit) \<times> mmap" where
  "blindwrite_loop 0 addr bs written mm = (Inr (), mm)"
| "blindwrite_loop (Suc k) addr bs written mm =
     (let n_bytes = min (int (length bs) - written) block_size
      in if n_bytes > 0 then
           (case mmap_setslice mm (addr + written) (addr + written + n_bytes)
                   (py_slice bs written (written + n_bytes)) of
              Inl e \<Rightarrow> (Inl e, mm)
            | Inr mm' \<Rightarrow> blindwrite_loop k addr bs (written + n_bytes) mm')
         else blindwrite_loop k addr bs (written + n_bytes) mm)"

definition blindwrite :: "session \<Rightarrow> device_name \<Rightarrow> py_data \<Rightarrow> int \<Rightarrow> (error + unit) \<times> session" where
  "blindwrite s device_name data offset =
     (case data of
        PyUnsized \<Rightarrow> (Inl TypeError, s)
      | PySized n \<Rightarrow> (Inl (AssertionError ''Must supply binary data''), s)
      | PyBytes bs \<Rightarrow>
          (let sz = int (length bs)
           in if sz mod 4 \<noteq> 0 then (Inl (AssertionError ''Must write 32-bit-bounded words''), s)
              else if offset mod 4 \<noteq> 0 then (Inl (AssertionError ''Must write 32-bit-bounded words''), s)
              else
                (case get_device_address s device_name of
                   Inl e \<Rightarrow> (Inl e, s)
                 | Inr a \<Rightarrow>
                     (let addr = a - AXIL_PCI_ADDR_TRANSLATION + offset;
                          (r, mm') = blindwrite_loop (nat (sz div block_size + 1)) addr bs 0 (axil_mm s)
                      in (r, s\<lparr>axil_mm := mm'\<rparr>)))))"

text \<open>
  The conceptual single-shot write of the specification: the same checks and the same
  address translation, and the whole payload assigned to the window in one slice
  assignment.
\<close>

definition single_write :: "session \<Rightarrow> device_name \<Rightarrow> py_data \<Rightarrow> int \<Rightarrow> (error + unit) \<times> session" where
  "single_write s device_name data offset =
     (case data of
        PyUnsized \<Rightarrow> (Inl TypeError, s)
      | PySized n \<Rightarrow> (Inl (AssertionError ''Must supply binary data''), s)
      | PyBytes bs \<Rightarrow>
          (let sz = int (length bs)
           in if sz mod 4 \<noteq> 0 then (Inl (AssertionError ''Must write 32-bit-bounded words''), s)
              else if offset mod 4 \<noteq> 0 then (Inl (AssertionError ''Must write 32-bit-bounded words''), s)
              else
                (case get_device_address s device_name of
                   Inl e \<Rightarrow> (Inl e, s)
                 | Inr a \<Rightarrow>
                     (let addr = a - AXIL_PCI_ADDR_TRANSLATION + offset
                      in case mmap_setslice (axil_mm s) addr (addr + sz) bs of
                           Inl e \<Rightarrow> (Inl e, s)
                         | Inr mm' \<Rightarrow> (Inr (), s\<lparr>axil_mm := mm'\<rparr>)))))"

text \<open>
  A session as the constructor leaves it for instance 0 when no image file is given:
  no name table loaded, no template recorded, and (for definiteness) a window that
  reads as zero everywhere.
\<close>

definition fresh_session :: session where
  "fresh_session = \<lparr>memory_devices = None, axil_mm = (\<lambda>_. 0), fpg_template = None,
     axid_dev = ''/dev/xdma0_h2c_1''\<rparr>"

section \<open>The device resolver\<close>

text \<open>
  \<^verbatim>\<open>int(s)\<close> on a string: surrounding whitespace is dropped, one sign is allowed,
  and what is left must be decimal digits, where single underscores may stand between
  two digits. \<^verbatim>\<open>str(i)\<close> is the decimal numeral of \<open>i\<close>. Strings are ASCII here.
\<close>

definition is_space :: "char \<Rightarrow> bool" where
  "is_space c = (c \<in> set [CHR 0x09, CHR 0x0A, CHR 0x0B, CHR 0x0C, CHR 0x0D,
                            CHR 0x1C, CHR 0x1D, CHR 0x1E, CHR 0x1F, CHR '' ''])"

definition strip :: "string \<Rightarrow> string" where
  "strip s = rev (dropWhile is_space (rev (dropWhile is_space s)))"

definition is_digit :: "char \<Rightarrow> bool" where
  "is_digit c = (c \<in> set ''0123456789'')"

definition digit_val :: "char \<Rightarrow> nat" where
  "digit_val c = length (takeWhile (\<lambda>d. d \<noteq> c) ''0123456789'')"

definition digit_char :: "nat \<Rightarrow> char" where
  "digit_char d = ''0123456789'' ! d"

fun parse_digits :: "bool \<Rightarrow> nat \<Rightarrow> string \<Rightarrow> nat option" where
  "parse_digits after_digit acc [] = (if after_digit then Some acc else None)"
| "parse_digits after_digit acc (c # cs) =
     (if is_digit c then parse_digits True (10 * acc + digit_val c) cs
      else if c = CHR ''_'' \<and> after_digit then parse_digits False acc cs
      else None)"

definition py_int_of_str :: "string \<Rightarrow> int option" where
  "py_int_of_str s =
     (case strip s of
        [] \<Rightarrow> None
      | c # cs \<Rightarrow>
          if c = CHR ''-'' then map_option (\<lambda>n. - int n) (parse_digits False 0 cs)
          else if c = CHR ''+'' then map_option int (parse_digits False 0 cs)
          else map_option int (parse_digits False 0 (c # cs)))"

fun str_nat :: "nat \<Rightarrow> string" where
  "str_nat n = (if n < 10 then [digit_char n] else str_nat (n div 10) @ [digit_char (n mod 10)])"

declare str_nat.simps [simp del]

definition py_str :: "int \<Rightarrow> string" where
  "py_str i = (if i < 0 then CHR ''-'' # str_nat (nat (- i)) else str_nat (nat i))"

text \<open>
  The mapping from PCI id to XDMA instance id is a Python dict; it is kept as the list
  of its items in insertion order, so its keys are distinct. \<open>map_of\<close> is the lookup
  and \<open>map snd\<close> the values.
\<close>

type_synonym pcie_xdma = "(string \<times> int) list"

definition startswith :: "'a list \<Rightarrow> 'a list \<Rightarrow> bool" where
  "startswith s p = (take (length p) s = p)"

definition target_not_recognised :: "target \<Rightarrow> pcie_xdma \<Rightarrow> error" where
  "target_not_recognised target pcie_xdma_dict =
     RuntimeError (TargetNotRecognised target
       (map (\<lambda>(pcie, xdma). (''pcie'' @ pcie, ''xdma'' @ py_str xdma)) pcie_xdma_dict))"

definition py_int :: "target \<Rightarrow> error + int" where
  "py_int target =
     (case target of
        TInt n \<Rightarrow> Inr n
      | TStr s \<Rightarrow> (case py_int_of_str s of
                     None \<Rightarrow> Inl (ValueError (InvalidLiteral s))
                   | Some n \<Rightarrow> Inr n))"

text \<open>
  \<^verbatim>\<open>getXdmaIdFromTarget(target, pcie_xdma_map)\<close>. When no mapping is supplied, the one
  that \<^verbatim>\<open>get_pcie_xdma_map()\<close> reads from the host is used; it is the parameter
  \<open>enumerated\<close>. \<open>bare\<close> is the final \<^verbatim>\<open>try\<close> block followed by the \<^verbatim>\<open>raise\<close>: every
  exception of \<^verbatim>\<open>int(target)\<close> is swallowed there. The \<^verbatim>\<open>int(target[4:])\<close> of the
  \<^verbatim>\<open>xdma\<close> branch is outside any \<^verbatim>\<open>try\<close>.
\<close>

definition getXdmaIdFromTarget :: "pcie_xdma \<Rightarrow> target \<Rightarrow> pcie_xdma option \<Rightarrow> error + int" where
  "getXdmaIdFromTarget enumerated target pcie_xdma_map =
     (let pcie_xdma_dict = (case pcie_xdma_map of None \<Rightarrow> enumerated | Some m \<Rightarrow> m);
          bare =
            (case py_int target of
               Inr n \<Rightarrow> if n \<in> set (map snd pcie_xdma_dict) then Inr n
                        else Inl (target_not_recognised target pcie_xdma_dict)
             | Inl _ \<Rightarrow> Inl (target_not_recognised target pcie_xdma_dict))
      in case target of
           TInt _ \<Rightarrow> bare
         | TStr s \<Rightarrow>
             (case (if startswith s ''pcie'' then map_of pcie_xdma_dict (drop 4 s) else None) of
                Some xdma \<Rightarrow> Inr xdma
              | None \<Rightarrow>
                  if startswith s ''xdma'' then
                    (case py_int (TStr (drop 4 s)) of
                       Inl e \<Rightarrow> Inl e
                     | Inr n \<Rightarrow> if n \<in> set (map snd pcie_xdma_dict) then Inr n else bare)
                  else bare))"

section \<open>The bitstream extractor\<close>

text \<open>
  The sentinel as bytes: a line feed, the text \<^verbatim>\<open>?quit\<close>, and a line feed.
  \<open>bytes_find sub xs 0\<close> is \<^verbatim>\<open>xs.find(sub)\<close>: the index of the first occurrence, or
  \<open>-1\<close> when there is none.
\<close>

definition sentinel :: bytes where
  "sentinel = [0x0A, 0x3F, 0x71, 0x75, 0x69, 0x74, 0x0A]"

fun bytes_find :: "'a list \<Rightarrow> 'a list \<Rightarrow> int \<Rightarrow> int" where
  "bytes_find sub [] i = (if sub = [] then i else - 1)"
| "bytes_find sub (x # xs) i = (if startswith (x # xs) sub then i else bytes_find sub xs (i + 1))"

text \<open>
  \<^verbatim>\<open>_extract_bitstream(filename)\<close>. The file system is a map from file names to
  contents, and a missing file is the \<^verbatim>\<open>OSError\<close> of \<^verbatim>\<open>open\<close>. \<^verbatim>\<open>zlib.decompress\<close>
  and the MD5 digest belong to the Python library and are parameters. The padding
  byte \<^verbatim>\<open>b"0"\<close> is the ASCII digit zero, \<open>0x30\<close>.
\<close>

definition extract_bitstream ::
  "(bytes \<Rightarrow> error + bytes) \<Rightarrow> (bytes \<Rightarrow> string) \<Rightarrow> (string \<rightharpoonup> bytes) \<Rightarrow> string \<Rightarrow>
     error + (bytes \<times> bytes \<times> string)" where
  "extract_bitstream zlib_decompress md5_hexdigest fs filename =
     (case fs filename of
        None \<Rightarrow> Inl (OSError filename)
      | Some fpg \<Rightarrow>
          (let header_offset = bytes_find sentinel fpg 0 + 7;
               header = py_slice fpg 0 header_offset @
                          replicate (nat (1024 - header_offset mod 1024)) 0x30;
               prog = py_slice fpg header_offset (int (length fpg)) @
                        replicate (nat (1024 - (int (length fpg) - header_offset) mod 1024)) 0x30
           in if startswith prog [0x1F, 0x8B, 0x08] then
                (case zlib_decompress prog of
                   Inl e \<Rightarrow> Inl e
                 | Inr unpacked \<Rightarrow> Inr (header, unpacked, md5_hexdigest fpg))
              else Inr (header, prog, md5_hexdigest fpg)))"

section \<open>Templates and upload\<close>

text \<open>
  \<^verbatim>\<open>parse_fpg\<close> belongs to \<^verbatim>\<open>utils\<close>, outside this module, and is a parameter: it
  returns a pair whose first component is the header, a dict of sections, each a dict
  from keys to values, or it raises. The dicts are kept as lists of items in insertion
  order. In \<^verbatim>\<open>_parse_template_meta\<close> the call of \<^verbatim>\<open>parse_fpg\<close> stands before the
  \<^verbatim>\<open>try\<close>; the lookup of the first section and of its \<^verbatim>\<open>pr_template\<close> key stands
  inside, where every exception becomes \<^verbatim>\<open>None\<close>.
\<close>

type_synonym fpg_header = "(string \<times> (string \<times> string) list) list"

definition parse_template_meta ::
  "(string \<Rightarrow> error + fpg_header \<times> 'm) \<Rightarrow> string \<Rightarrow> error + string option" where
  "parse_template_meta parse_fpg fpgfile =
     (case parse_fpg fpgfile of
        Inl e \<Rightarrow> Inl e
      | Inr (fpg_header, _) \<Rightarrow>
          (case fpg_header of
             [] \<Rightarrow> Inr None
           | (_, first_section) # _ \<Rightarrow> Inr (map_of first_section ''pr_template'')))"

definition endswith :: "'a list \<Rightarrow> 'a list \<Rightarrow> bool" where
  "endswith s p = startswith (rev s) (rev p)"

text \<open>
  What \<^verbatim>\<open>upload_to_ram_and_program\<close> sees of the host: the files it can read, and the
  log of what has been written to device files, oldest first. Failures of the
  operating system while the streaming device is written are not modelled.
\<close>

record world =
  files :: "string \<rightharpoonup> bytes"
  written :: "(string \<times> bytes) list"

definition upload_to_ram_and_program ::
  "(string \<Rightarrow> error + fpg_header \<times> 'm) \<Rightarrow> (bytes \<Rightarrow> error + bytes) \<Rightarrow> (bytes \<Rightarrow> string) \<Rightarrow>
     session \<Rightarrow> world \<Rightarrow> string \<Rightarrow> (error + bool) \<times> session \<times> world" where
  "upload_to_ram_and_program parse_fpg zlib_decompress md5_hexdigest s w filename =
     (if \<not> endswith filename ''.fpg'' then (Inl (AssertionError []), s, w)
      else
        (case parse_template_meta parse_fpg filename of
           Inl e \<Rightarrow> (Inl e, s, w)
         | Inr template \<Rightarrow>
             (case (case fpg_template s of
                      None \<Rightarrow> None
                    | Some t \<Rightarrow> if Some t \<noteq> template then Some (RuntimeError (TemplateMismatch t template))
                                else None) of
                Some e \<Rightarrow> (Inl e, s, w)
              | None \<Rightarrow>
                  (case extract_bitstream zlib_decompress md5_hexdigest (files w) filename of
                     Inl e \<Rightarrow> (Inl e, s, w)
                   | Inr (header, bitstream, md5) \<Rightarrow>
                       (let w' = w\<lparr>written := written w @ [(axid_dev s, bitstream)]\<rparr>
                        in if fpg_template s = None \<and> template \<noteq> None
                           then (Inr True, s\<lparr>fpg_template := template\<rparr>, w')
                           else (Inr True, s, w'))))))"

text \<open>The specification's \<open>ceil(n / 1024) * 1024\<close>.\<close>

definition round_up_1024 :: "nat \<Rightarrow> nat" where
  "round_up_1024 n = ((n + 1023) div 1024) * 1024"

text \<open>
  Stand-ins for the concrete instances below: a decompressor that rejects its input,
  and a host with no files. The theorems hold for every decompressor, digest and
  parser.
\<close>

definition no_zlib :: "bytes \<Rightarrow> error + bytes" where
  "no_zlib prog = Inl (ExternalError ''zlib.error'')"

definition empty_world :: world where
  "empty_world = \<lparr>files = Map.empty, written = []\<rparr>"

section \<open>Properties of the register window\<close>

subsection \<open>Slices inside the window\<close>

lemma py_slice_inside:
  "py_slice bs (int w) (int w + int n) = take n (drop w bs)" if "w + n \<le> length bs"
  using that by (simp add: py_slice_def adjust_index_def Let_def)

lemma mmap_setslice_in_window:
  assumes "int a + int (length v) \<le> MAP_SIZE"
  shows "mmap_setslice mm (int a) (int a + int (length v)) v =
           Inr (\<lambda>i. if a \<le> i \<and> i < a + length v then v ! (i - a) else mm i)"
proof -
  have s: "adjust_index MAP_SIZE (int a) = int a"
    using assms by (simp add: adjust_index_def)
  have e: "adjust_index MAP_SIZE (int a + int (length v)) = int a + int (length v)"
    using assms by (simp add: adjust_index_def)
  show ?thesis
    unfolding mmap_setslice_def s e by (auto simp: Let_def fun_eq_iff)
qed

lemma mmap_setslice_whole:
  assumes "0 \<le> addr" "addr + int (length bs) \<le> MAP_SIZE"
  shows "mmap_setslice mm addr (addr + int (length bs)) bs =
           Inr (\<lambda>i. if nat addr \<le> i \<and> i < nat addr + length bs then bs ! (i - nat addr) else mm i)"
proof -
  have win: "int (nat addr) + int (length bs) \<le> MAP_SIZE" using assms by simp
  show ?thesis using mmap_setslice_in_window [OF win, of mm] assms(1) by simp
qed

lemma mmap_getslice_in_window:
  assumes "0 \<le> addr" "0 \<le> sz" "addr + sz \<le> MAP_SIZE"
  shows "mmap_getslice mm addr (addr + sz) = map mm [nat addr ..< nat (addr + sz)]"
  using assms by (auto simp: mmap_getslice_def adjust_index_def Let_def)

lemma map_written_range:
  "map (\<lambda>i. if n \<le> i \<and> i < n + length bs then bs ! (i - n) else m i) [n ..< n + length bs] = bs"
  by (rule nth_equalityI) simp_all

subsection \<open>The chunked loop\<close>

text \<open>
  The loop invariant: once \<open>w\<close> bytes are written, enough iterations remain, and the
  whole payload fits the window, the loop ends normally with the rest of the payload
  in place.
\<close>

lemma blindwrite_loop_in_window:
  assumes "int a + int (length bs) \<le> MAP_SIZE" "w \<le> length bs"
    and "int (length bs) - int w \<le> int k * block_size"
  shows "blindwrite_loop k (int a) bs (int w) mm =
           (Inr (), \<lambda>i. if a + w \<le> i \<and> i < a + length bs then bs ! (i - a) else mm i)"
  using assms
proof (induction k arbitrary: w mm)
  case 0
  then have "w = length bs" by simp
  then show ?case by (auto simp: fun_eq_iff)
next
  case (Suc k)
  define n where "n = min (length bs - w) 4096"
  have n_int: "min (int (length bs) - int w) block_size = int n"
    using Suc.prems(2) unfolding n_def block_size_def by arith
  have wn: "w + n \<le> length bs"
    using Suc.prems(2) by (simp add: n_def)
  have rest: "int (length bs) - int (w + n) \<le> int k * block_size"
    using Suc.prems(2,3) unfolding n_def block_size_def
    by (cases "length bs - w \<le> 4096") (simp_all add: algebra_simps)
  have IH: "blindwrite_loop k (int a) bs (int (w + n)) mm' =
      (Inr (), \<lambda>i. if a + (w + n) \<le> i \<and> i < a + length bs then bs ! (i - a) else mm' i)" for mm'
    by (rule Suc.IH [OF Suc.prems(1) wn rest])
  show ?case
  proof (cases "n = 0")
    case True
    then have "w = length bs" using Suc.prems(2) by (simp add: n_def min_def split: if_splits)
    with True IH [of mm] n_int show ?thesis by (simp add: Let_def)
  next
    case False
    have len: "length (take n (drop w bs)) = n" using wn by simp
    have inwin: "int (a + w) + int (length (take n (drop w bs))) \<le> MAP_SIZE"
      using Suc.prems(1) wn by (simp only: len)
    have set: "mmap_setslice mm (int a + int w) (int a + int w + int n) (py_slice bs (int w) (int w + int n)) =
       Inr (\<lambda>i. if a + w \<le> i \<and> i < a + w + n then take n (drop w bs) ! (i - (a + w)) else mm i)"
      using mmap_setslice_in_window [OF inwin, of mm] wn by (simp add: py_slice_inside len)
    have "(\<lambda>i. if a + (w + n) \<le> i \<and> i < a + length bs then bs ! (i - a)
              else if a + w \<le> i \<and> i < a + w + n then take n (drop w bs) ! (i - (a + w)) else mm i) =
          (\<lambda>i. if a + w \<le> i \<and> i < a + length bs then bs ! (i - a) else mm i)"
      using wn by (auto simp: fun_eq_iff intro!: arg_cong [where f = "nth bs"])
    with False IH set n_int show ?thesis by (simp add: Let_def)
  qed
qed

lemma blindwrite_loop_whole:
  assumes "0 \<le> addr" "addr + int (length bs) \<le> MAP_SIZE"
  shows "blindwrite_loop (nat (int (length bs) div block_size + 1)) addr bs 0 mm =
           (Inr (), \<lambda>i. if nat addr \<le> i \<and> i < nat addr + length bs then bs ! (i - nat addr) else mm i)"
proof -
  have "int (length bs) \<le> (int (length bs) div 4096 + 1) * 4096"
    by (simp add: algebra_simps)
  then have fuel: "int (length bs) - int 0 \<le> int (nat (int (length bs) div block_size + 1)) * block_size"
    by (simp add: block_size_def)
  have win: "int (nat addr) + int (length bs) \<le> MAP_SIZE" using assms by simp
  show ?thesis
    using blindwrite_loop_in_window [OF win _ fuel, of mm] assms(1) by simp
qed

lemma fresh_session_resolves:
  "0 \<le> n \<Longrightarrow> n < 2 ^ 32 \<Longrightarrow> get_device_address fresh_session (DevInt n) = Inr n"
  by (simp add: get_device_address_def fresh_session_def)

subsection \<open>Write then read\<close>

text \<open>
  Claim C1. A valid aligned write is a byte string whose length is a multiple of 4, at
  an offset that is a multiple of 4, to a device that resolves to an address \<open>a\<close>, such
  that the translated range \<open>[a - translation + offset, ... + len)\<close> lies within the
  window of \<open>MAP_SIZE\<close> bytes. For every such write, \<^verbatim>\<open>blindwrite\<close> returns normally,
  and reading \<open>len\<close> bytes at the same device and offset afterwards returns exactly the
  bytes written.
\<close>

theorem write_read_round_trip:
  assumes "int (length bs) mod 4 = 0" and "offset mod 4 = 0"
    and "get_device_address s device_name = Inr a"
    and "0 \<le> a - AXIL_PCI_ADDR_TRANSLATION + offset"
    and "a - AXIL_PCI_ADDR_TRANSLATION + offset + int (length bs) \<le> MAP_SIZE"
  shows "fst (blindwrite s device_name (PyBytes bs) offset) = Inr () \<and>
         read (snd (blindwrite s device_name (PyBytes bs) offset)) device_name (int (length bs)) offset = Inr bs"
proof -
  let ?addr = "a - AXIL_PCI_ADDR_TRANSLATION + offset"
  let ?mm = "\<lambda>i. if nat ?addr \<le> i \<and> i < nat ?addr + length bs then bs ! (i - nat ?addr) else axil_mm s i"
  have w: "blindwrite s device_name (PyBytes bs) offset = (Inr (), s\<lparr>axil_mm := ?mm\<rparr>)"
    using assms by (simp add: blindwrite_def Let_def blindwrite_loop_whole)
  have dev: "get_device_address (s\<lparr>axil_mm := ?mm\<rparr>) device_name = Inr a"
    using assms(3) by (simp add: get_device_address_def)
  have "nat (?addr + int (length bs)) = nat ?addr + length bs"
    using assms(4) by (simp add: nat_add_distrib)
  then have "map ?mm [nat ?addr ..< nat (?addr + int (length bs))] = bs"
    by (simp only: map_written_range)
  then have "mmap_getslice ?mm ?addr (?addr + int (length bs)) = bs"
    using assms(4,5) by (simp add: mmap_getslice_in_window)
  then show ?thesis
    by (simp add: w read_def dev)
qed

text \<open>
  The theorem at a payload of two full chunks, written at offset 4096 of the device
  at address 65536.
\<close>

theorem write_read_round_trip_witness:
  "int (length (replicate 8192 (7::byte))) mod 4 = 0 \<and> (4096::int) mod 4 = 0 \<and>
   get_device_address fresh_session (DevInt 65536) = Inr 65536 \<and>
   fst (blindwrite fresh_session (DevInt 65536) (PyBytes (replicate 8192 7)) 4096) = Inr () \<and>
   read (snd (blindwrite fresh_session (DevInt 65536) (PyBytes (replicate 8192 7)) 4096))
     (DevInt 65536) 8192 4096 = Inr (replicate 8192 7)"
proof -
  have dev: "get_device_address fresh_session (DevInt 65536) = Inr 65536"
    by (simp add: fresh_session_resolves)
  show ?thesis
    using write_read_round_trip [of "replicate 8192 7" 4096 fresh_session "DevInt 65536" 65536] dev
    by (simp add: MAP_SIZE_def AXIL_PCI_ADDR_TRANSLATION_def)
qed

subsection \<open>Chunked and single-shot writes\<close>

text \<open>
  Claim C2, as amended. For every payload whose translated range lies within the
  window (the device resolves to \<open>a\<close>, and \<open>0 \<le> a - translation + offset\<close> and
  \<open>a - translation + offset + len \<le> MAP_SIZE\<close>), including payloads that span one or
  more 4096-byte chunk boundaries and payloads whose length is an exact multiple of
  4096, the chunked loop of \<^verbatim>\<open>blindwrite\<close> gives the same outcome and leaves the session,
  and so the mapped memory, in exactly the same state as a single contiguous write of
  the whole payload at the same translated address.
\<close>

theorem blindwrite_chunked_eq_single:
  assumes "get_device_address s device_name = Inr a"
    and "0 \<le> a - AXIL_PCI_ADDR_TRANSLATION + offset"
    and "a - AXIL_PCI_ADDR_TRANSLATION + offset + int (length bs) \<le> MAP_SIZE"
  shows "blindwrite s device_name (PyBytes bs) offset = single_write s device_name (PyBytes bs) offset"
  using assms
  by (simp add: blindwrite_def single_write_def Let_def blindwrite_loop_whole mmap_setslice_whole)

text \<open>The theorem at a payload of exactly two chunks written at the start of the window.\<close>

theorem blindwrite_chunked_eq_single_witness:
  "get_device_address fresh_session (DevInt 0) = Inr 0 \<and>
   0 + int (length (replicate 8192 (7::byte))) \<le> MAP_SIZE \<and>
   blindwrite fresh_session (DevInt 0) (PyBytes (replicate 8192 7)) 0 =
   single_write fresh_session (DevInt 0) (PyBytes (replicate 8192 7)) 0"
proof -
  have dev: "get_device_address fresh_session (DevInt 0) = Inr 0"
    by (simp add: fresh_session_resolves)
  show ?thesis
    using blindwrite_chunked_eq_single [of fresh_session "DevInt 0" 0 0 "replicate 8192 7"] dev
    by (simp add: MAP_SIZE_def AXIL_PCI_ADDR_TRANSLATION_def)
qed

text \<open>
  Without the condition the two differ. An aligned payload of 8192 bytes written at
  address \<open>MAP_SIZE - 4096\<close>: the first chunk fits the window and is stored, the slice
  of the second chunk is clamped to the empty slice and its assignment raises
  \<^verbatim>\<open>IndexError\<close>. The single-shot assignment raises \<^verbatim>\<open>IndexError\<close> as well, but
  stores nothing.
\<close>

theorem blindwrite_partial_write_counterexample:
  "axil_mm (snd (blindwrite fresh_session (DevInt 8384512) (PyBytes (replicate 8192 1)) 0)) 8384512 = 1 \<and>
   axil_mm (snd (single_write fresh_session (DevInt 8384512) (PyBytes (replicate 8192 1)) 0)) 8384512 = 0 \<and>
   fst (blindwrite fresh_session (DevInt 8384512) (PyBytes (replicate 8192 1)) 0) = Inl IndexError \<and>
   fst (single_write fresh_session (DevInt 8384512) (PyBytes (replicate 8192 1)) 0) = Inl IndexError"
proof -
  have n: "nat (8192 div block_size + 1) = Suc (Suc (Suc 0))"
    by (simp add: block_size_def)
  have dev: "get_device_address fresh_session (DevInt 8384512) = Inr 8384512"
    by (simp add: fresh_session_resolves)
  have mm0: "axil_mm fresh_session = (\<lambda>_. 0)"
    by (simp add: fresh_session_def)
  have single: "single_write fresh_session (DevInt 8384512) (PyBytes (replicate 8192 1)) 0 =
      (Inl IndexError, fresh_session)"
    by (simp add: single_write_def dev mmap_setslice_def adjust_index_def MAP_SIZE_def
        AXIL_PCI_ADDR_TRANSLATION_def)
  have loop: "blindwrite_loop (Suc (Suc (Suc 0))) 8384512 (replicate 8192 1) 0 (\<lambda>_. 0) =
      (Inl IndexError, \<lambda>i. if 8384512 \<le> i \<and> i < 8384512 + 4096 then 1 else 0)"
    by (auto simp: block_size_def mmap_setslice_def py_slice_def adjust_index_def MAP_SIZE_def
        Let_def fun_eq_iff)
  have chunked: "blindwrite fresh_session (DevInt 8384512) (PyBytes (replicate 8192 1)) 0 =
      (Inl IndexError,
       fresh_session\<lparr>axil_mm := \<lambda>i. if 8384512 \<le> i \<and> i < 8384512 + 4096 then 1 else 0\<rparr>)"
    by (simp add: blindwrite_def dev n AXIL_PCI_ADDR_TRANSLATION_def mm0 loop
        del: blindwrite_loop.simps)
  show ?thesis
    by (simp add: single chunked mm0)
qed

subsection \<open>Reads\<close>

text \<open>
  Claim C9, as amended. For every device that resolves to an address \<open>a\<close>, every size
  \<open>sz \<ge> 0\<close> and every offset such that the logical range
  \<open>[a - translation + offset, a - translation + offset + sz)\<close> lies within the window,
  \<^verbatim>\<open>read\<close> returns a byte string of exactly \<open>sz\<close> bytes, equal to the window contents
  at that range. Address, offset and size need not be aligned.
\<close>

theorem read_exact_range:
  assumes "get_device_address s device_name = Inr a"
    and "0 \<le> sz"
    and "0 \<le> a - AXIL_PCI_ADDR_TRANSLATION + offset"
    and "a - AXIL_PCI_ADDR_TRANSLATION + offset + sz \<le> MAP_SIZE"
  shows "\<exists>bs. read s device_name sz offset = Inr bs \<and> int (length bs) = sz \<and>
           bs = map (axil_mm s) [nat (a - AXIL_PCI_ADDR_TRANSLATION + offset) ..<
                                 nat (a - AXIL_PCI_ADDR_TRANSLATION + offset + sz)]"
  using assms by (simp add: read_def Let_def mmap_getslice_in_window)

text \<open>The theorem at an odd address, an odd size and an offset that is not a multiple of 4.\<close>

theorem read_exact_range_witness:
  "get_device_address fresh_session (DevInt 3) = Inr 3 \<and>
   (\<exists>bs. read fresh_session (DevInt 3) 5 2 = Inr bs \<and> int (length bs) = 5 \<and>
      bs = map (axil_mm fresh_session) [5 ..< 10])"
proof -
  have dev: "get_device_address fresh_session (DevInt 3) = Inr 3"
    by (simp add: fresh_session_resolves)
  show ?thesis
    using read_exact_range [of fresh_session "DevInt 3" 3 5 2] dev
    by (simp add: MAP_SIZE_def AXIL_PCI_ADDR_TRANSLATION_def)
qed

text \<open>
  Without the condition the read is clamped: the integer \<open>MAP_SIZE\<close> is a resolvable
  device address (it is below \<open>2 ^ 32\<close>), and reading 4 bytes there returns the empty
  byte string.
\<close>

theorem read_beyond_window_counterexample:
  "get_device_address fresh_session (DevInt 8388608) = Inr 8388608 \<and>
   read fresh_session (DevInt 8388608) 4 0 = Inr []"
  by (simp add: read_def get_device_address_def fresh_session_def mmap_getslice_def
      adjust_index_def MAP_SIZE_def AXIL_PCI_ADDR_TRANSLATION_def)

subsection \<open>Rejected writes\<close>

text \<open>
  Claim C8, as amended. For every write call whose payload is not a byte string, or
  whose length is not a multiple of 4, or whose offset is not a multiple of 4, the
  write fails and leaves the session, and so every byte of the window, as it was; the
  payload is not realigned or truncated. The failure is an \<^verbatim>\<open>AssertionError\<close> whenever
  the payload has a length; for a payload on which \<^verbatim>\<open>len()\<close> raises it is that
  \<^verbatim>\<open>TypeError\<close>.
\<close>

theorem blindwrite_rejects_unaligned:
  assumes "\<forall>bs. data = PyBytes bs \<longrightarrow> int (length bs) mod 4 \<noteq> 0 \<or> offset mod 4 \<noteq> 0"
  shows "snd (blindwrite s device_name data offset) = s \<and>
         (if data = PyUnsized then fst (blindwrite s device_name data offset) = Inl TypeError
          else \<exists>msg. fst (blindwrite s device_name data offset) = Inl (AssertionError msg))"
  using assms by (cases data) (auto simp: blindwrite_def Let_def)

text \<open>The theorem at a byte string of three bytes.\<close>

theorem blindwrite_rejects_unaligned_witness:
  "snd (blindwrite fresh_session (DevInt 0) (PyBytes [1, 2, 3]) 0) = fresh_session \<and>
   (\<exists>msg. fst (blindwrite fresh_session (DevInt 0) (PyBytes [1, 2, 3]) 0) = Inl (AssertionError msg))"
  using blindwrite_rejects_unaligned [of "PyBytes [1, 2, 3]" 0 fresh_session "DevInt 0"]
  by simp

text \<open>
  A payload without a length (an integer, say) is not a byte string, and the call
  fails on \<^verbatim>\<open>len(data)\<close>, before the assertions are reached.
\<close>

theorem blindwrite_unsized_counterexample:
  "fst (blindwrite fresh_session (DevInt 0) PyUnsized 0) = Inl TypeError \<and>
   (\<forall>msg. fst (blindwrite fresh_session (DevInt 0) PyUnsized 0) \<noteq> Inl (AssertionError msg))"
  by (simp add: blindwrite_def)

section \<open>Properties of the device resolver\<close>

lemma digit_char_props:
  assumes "d < 10"
  shows "is_digit (digit_char d)" "digit_val (digit_char d) = d" "\<not> is_space (digit_char d)"
    "digit_char d \<noteq> CHR ''-''" "digit_char d \<noteq> CHR ''+''"
proof -
  from assms have "d = 0 \<or> d = 1 \<or> d = 2 \<or> d = 3 \<or> d = 4 \<or> d = 5 \<or> d = 6 \<or> d = 7 \<or> d = 8 \<or> d = 9"
    by arith
  then have "is_digit (digit_char d) \<and> digit_val (digit_char d) = d \<and> \<not> is_space (digit_char d) \<and>
    digit_char d \<noteq> CHR ''-'' \<and> digit_char d \<noteq> CHR ''+''"
    by (elim disjE) (simp_all add: digit_char_def is_digit_def digit_val_def is_space_def)
  then show "is_digit (digit_char d)" "digit_val (digit_char d) = d" "\<not> is_space (digit_char d)"
    "digit_char d \<noteq> CHR ''-''" "digit_char d \<noteq> CHR ''+''"
    by simp_all
qed

lemma underscore_no_digit: "\<not> is_digit CHR ''_''"
  by (simp add: is_digit_def)

lemma parse_digits_snoc:
  "d < 10 \<Longrightarrow> parse_digits after_digit acc xs = Some v \<Longrightarrow>
   parse_digits after_digit acc (xs @ [digit_char d]) = Some (10 * v + d)"
proof (induction xs arbitrary: after_digit acc)
  case Nil
  then show ?case by (simp add: digit_char_props split: if_splits)
next
  case (Cons c cs)
  then show ?case using underscore_no_digit by (auto split: if_splits)
qed

lemma parse_digits_str_nat: "parse_digits False 0 (str_nat n) = Some n"
proof (induction n rule: str_nat.induct)
  case (1 n)
  show ?case
  proof (cases "n < 10")
    case True
    then show ?thesis by (simp add: str_nat.simps [of n] digit_char_props)
  next
    case False
    then have "parse_digits False 0 (str_nat (n div 10)) = Some (n div 10)" by (rule "1.IH")
    then have "parse_digits False 0 (str_nat (n div 10) @ [digit_char (n mod 10)]) = Some (10 * (n div 10) + n mod 10)"
      by (rule parse_digits_snoc [rotated]) simp
    with False show ?thesis by (simp add: str_nat.simps [of n])
  qed
qed

lemma str_nat_shape:
  "str_nat n \<noteq> [] \<and> \<not> is_space (hd (str_nat n)) \<and> \<not> is_space (last (str_nat n)) \<and>
   hd (str_nat n) \<noteq> CHR ''-'' \<and> hd (str_nat n) \<noteq> CHR ''+''"
proof (induction n rule: str_nat.induct)
  case (1 n)
  show ?case
  proof (cases "n < 10")
    case True
    then show ?thesis by (simp add: str_nat.simps [of n] digit_char_props)
  next
    case False
    then have eq: "str_nat n = str_nat (n div 10) @ [digit_char (n mod 10)]"
      by (subst str_nat.simps) simp
    from False "1.IH" show ?thesis
      unfolding eq by (simp add: digit_char_props)
  qed
qed

lemma dropWhile_hd: "s \<noteq> [] \<Longrightarrow> \<not> P (hd s) \<Longrightarrow> dropWhile P s = s"
  by (cases s) simp_all

lemma strip_id: "s \<noteq> [] \<Longrightarrow> \<not> is_space (hd s) \<Longrightarrow> \<not> is_space (last s) \<Longrightarrow> strip s = s"
  by (simp add: strip_def dropWhile_hd hd_rev)

lemma py_int_of_str_py_str: "py_int_of_str (py_str k) = Some k"
proof (cases "k < 0")
  case True
  have "\<not> is_space CHR ''-''" by (simp add: is_space_def)
  then have "strip (CHR ''-'' # str_nat (nat (- k))) = CHR ''-'' # str_nat (nat (- k))"
    using str_nat_shape [of "nat (- k)"] by (intro strip_id) simp_all
  with True show ?thesis
    by (simp add: py_int_of_str_def py_str_def parse_digits_str_nat)
next
  case False
  obtain c cs where s: "str_nat (nat k) = c # cs"
    using str_nat_shape [of "nat k"] by (cases "str_nat (nat k)") auto
  have "strip (str_nat (nat k)) = str_nat (nat k)"
    using str_nat_shape [of "nat k"] by (intro strip_id) simp_all
  moreover have "c \<noteq> CHR ''-''" "c \<noteq> CHR ''+''"
    using str_nat_shape [of "nat k"] s by simp_all
  moreover have "parse_digits False 0 (c # cs) = Some (nat k)"
    using parse_digits_str_nat [of "nat k"] s by simp
  ultimately show ?thesis using False s
    by (simp add: py_int_of_str_def py_str_def del: parse_digits.simps)
qed

lemma startswith_append: "startswith (p @ s) p"
  by (simp add: startswith_def)

text \<open>
  Claim C6. For every mapping (supplied, or enumerated when none is supplied) that
  pairs PCI id \<open>A\<close> with instance id \<open>K\<close>, resolving the target \<open>"pcie" + A\<close> and
  resolving the target \<open>"xdma" + str(K)\<close> both succeed and return \<open>K\<close>.
\<close>

theorem resolve_pcie_xdma_agree:
  assumes "map_of (case pcie_xdma_map of None \<Rightarrow> enumerated | Some m \<Rightarrow> m) A = Some K"
  shows "getXdmaIdFromTarget enumerated (TStr (''pcie'' @ A)) pcie_xdma_map = Inr K \<and>
         getXdmaIdFromTarget enumerated (TStr (''xdma'' @ py_str K)) pcie_xdma_map = Inr K"
proof -
  let ?d = "case pcie_xdma_map of None \<Rightarrow> enumerated | Some m \<Rightarrow> m"
  have pcie: "startswith (''pcie'' @ A) ''pcie''" "drop 4 (''pcie'' @ A) = A"
    by (simp_all add: startswith_def)
  have xdma: "\<not> startswith (''xdma'' @ py_str K) ''pcie''" "startswith (''xdma'' @ py_str K) ''xdma''"
    "drop 4 (''xdma'' @ py_str K) = py_str K"
    by (simp_all add: startswith_def)
  have "(A, K) \<in> set ?d" using assms by (rule map_of_SomeD)
  then have val: "K \<in> set (map snd ?d)" by force
  have first: "getXdmaIdFromTarget enumerated (TStr (''pcie'' @ A)) pcie_xdma_map = Inr K"
    unfolding getXdmaIdFromTarget_def Let_def using assms by (simp only: pcie target.case if_True option.case)
  have second: "getXdmaIdFromTarget enumerated (TStr (''xdma'' @ py_str K)) pcie_xdma_map = Inr K"
    unfolding getXdmaIdFromTarget_def Let_def using val
    by (simp only: xdma target.case if_True if_False option.case py_int_def py_int_of_str_py_str sum.case)
  from first second show ?thesis ..
qed

text \<open>The theorem at the mapping \<^verbatim>\<open>{"0000:01:00.0": 0}\<close>.\<close>

theorem resolve_pcie_xdma_agree_witness:
  "getXdmaIdFromTarget [] (TStr ''pcie0000:01:00.0'') (Some [(''0000:01:00.0'', 0)]) = Inr 0 \<and>
   getXdmaIdFromTarget [] (TStr ''xdma0'') (Some [(''0000:01:00.0'', 0)]) = Inr 0"
  using resolve_pcie_xdma_agree [where pcie_xdma_map = "Some [(''0000:01:00.0'', 0)]"
      and enumerated = "[]" and A = "''0000:01:00.0''" and K = 0]
  by (simp add: py_str_def str_nat.simps [of 0] digit_char_def)

text \<open>
  Claim C7 says that every target that is not recognised fails with the descriptive
  error that lists the valid identifier pairs. The code does so for an unmapped
  integer, but not for an \<^verbatim>\<open>xdma\<close>-prefixed string whose rest is not an integer: with
  the mapping \<^verbatim>\<open>{"0000:01:00.0": 0}\<close>, the target \<^verbatim>\<open>"xdmafoo"\<close> raises the
  \<^verbatim>\<open>ValueError\<close> of \<^verbatim>\<open>int("foo")\<close>.
\<close>

theorem resolve_xdma_not_integer:
  "getXdmaIdFromTarget [] (TStr ''xdmafoo'') (Some [(''0000:01:00.0'', 0)]) =
     Inl (ValueError (InvalidLiteral ''foo''))"
  by (simp add: getXdmaIdFromTarget_def startswith_def py_int_def py_int_of_str_def strip_def
      is_space_def is_digit_def)

text \<open>The unmapped integer of the specification's example gets the descriptive error.\<close>

lemma resolve_unmapped:
  "getXdmaIdFromTarget [] (TStr ''xdma1'') (Some [(''0000:01:00.0'', 0)]) =
     Inl (RuntimeError (TargetNotRecognised (TStr ''xdma1'') [(''pcie0000:01:00.0'', ''xdma0'')]))"
  by (simp add: getXdmaIdFromTarget_def startswith_def py_int_def py_int_of_str_def strip_def
      is_space_def is_digit_def digit_val_def target_not_recognised_def py_str_def str_nat.simps [of 0] digit_char_def)

section \<open>Properties of the bitstream extractor\<close>

text \<open>
  \<open>bytes_find\<close> returns the first position at which the pattern starts: when no
  occurrence starts inside \<open>h0\<close> and one starts right after it, the result is the
  length of \<open>h0\<close>.
\<close>

lemma bytes_find_append:
  "(\<forall>j<length h0. \<not> startswith (drop j (h0 @ rest)) sub) \<Longrightarrow> startswith rest sub \<Longrightarrow>
   bytes_find sub (h0 @ rest) i = i + int (length h0)"
proof (induction h0 arbitrary: i)
  case Nil
  then show ?case by (cases rest) (auto simp: startswith_def)
next
  case (Cons a h0)
  from Cons.prems(1) have "\<not> startswith ((a # h0) @ rest) sub" by force
  moreover have "\<forall>j<length h0. \<not> startswith (drop j (h0 @ rest)) sub"
  proof (intro allI impI)
    fix j assume "j < length h0"
    then have "\<not> startswith (drop (Suc j) ((a # h0) @ rest)) sub"
      using Cons.prems(1) by (metis Suc_less_eq length_Cons)
    then show "\<not> startswith (drop j (h0 @ rest)) sub" by simp
  qed
  ultimately show ?case using Cons.IH [of "i + 1"] Cons.prems(2) by simp
qed

text \<open>
  The padding byte is none of the three magic bytes, so the test for the gzip magic
  on the padded program is a test on the payload.
\<close>

lemma pad_not_gzip:
  "startswith (payload @ replicate k (0x30::byte)) [0x1F, 0x8B, 0x08] = startswith payload [0x1F, 0x8B, 0x08]"
proof (cases payload)
  case Nil
  then show ?thesis by (cases k) (simp_all add: startswith_def)
next
  case (Cons a p1)
  note c1 = this
  show ?thesis
  proof (cases p1)
    case Nil
    with c1 show ?thesis by (cases k; cases "k - 1") (auto simp: startswith_def)
  next
    case (Cons b p2)
    note c2 = this
    show ?thesis
    proof (cases p2)
      case Nil
      with c1 c2 show ?thesis by (cases k) (auto simp: startswith_def)
    next
      case (Cons c p3)
      with c1 c2 show ?thesis by (simp add: startswith_def)
    qed
  qed
qed

text \<open>
  The result of the extraction for every file whose first sentinel ends the header,
  whatever the lengths: each section is followed by \<open>1024 - n mod 1024\<close> padding
  bytes, where \<open>n\<close> is its own length, which is between 1 and 1024 bytes.
\<close>

lemma extract_bitstream_split:
  assumes fpg: "fs filename = Some (h0 @ sentinel @ payload)"
    and first: "bytes_find sentinel (h0 @ sentinel @ payload) 0 = int (length h0)"
  shows "extract_bitstream z m fs filename =
     (let header = (h0 @ sentinel) @ replicate (1024 - length (h0 @ sentinel) mod 1024) 0x30;
          prog = payload @ replicate (1024 - length payload mod 1024) 0x30
      in if startswith payload [0x1F, 0x8B, 0x08] then
           (case z prog of Inl e \<Rightarrow> Inl e
            | Inr unpacked \<Rightarrow> Inr (header, unpacked, m (h0 @ sentinel @ payload)))
         else Inr (header, prog, m (h0 @ sentinel @ payload)))"
proof -
  let ?fpg = "h0 @ sentinel @ payload"
  let ?hdr = "h0 @ sentinel"
  have len7: "length sentinel = 7" by (simp add: sentinel_def)
  have off: "bytes_find sentinel ?fpg 0 + 7 = int (length ?hdr)"
    using first by (simp add: len7)
  have h: "py_slice ?fpg 0 (int (length ?hdr)) = ?hdr"
    using py_slice_inside [of 0 "length ?hdr" ?fpg] by simp
  have p: "py_slice ?fpg (int (length ?hdr)) (int (length ?fpg)) = payload"
    using py_slice_inside [of "length ?hdr" "length payload" ?fpg] by (simp add: add.assoc)
  have pad: "nat (1024 - int n mod 1024) = 1024 - n mod 1024" for n :: nat
  proof -
    have "int n mod 1024 = int (n mod 1024)" by (simp add: zmod_int)
    then show ?thesis by simp
  qed
  have n1: "nat (1024 - int (length ?hdr) mod 1024) = 1024 - length ?hdr mod 1024"
    by (rule pad)
  have "int (length ?fpg) - int (length ?hdr) = int (length payload)" by simp
  then have n2: "nat (1024 - (int (length ?fpg) - int (length ?hdr)) mod 1024) = 1024 - length payload mod 1024"
    by (simp only: pad)
  show ?thesis
    unfolding extract_bitstream_def fpg option.case off Let_def h p n1 n2 pad_not_gzip ..
qed

lemma round_up_div: "n mod 1024 \<noteq> 0 \<Longrightarrow> (n + 1023) div 1024 = n div 1024 + (1::nat)"
proof -
  assume a: "n mod 1024 \<noteq> 0"
  define q where "q = n div 1024"
  define r where "r = n mod 1024"
  have n: "n = q * 1024 + r" by (simp add: q_def r_def)
  have r: "0 < r" "r < 1024" using a by (simp_all add: r_def)
  then obtain r' where r': "r = Suc r'" "r' < 1023" by (cases r) auto
  have "n + 1023 = (q + 1) * 1024 + r'" using n r' by simp
  then have "(n + 1023) div 1024 = (q + 1) + r' div 1024" by (simp only: div_mult_self3)
  also have "r' div 1024 = 0" using r' by simp
  finally show ?thesis by (simp add: q_def)
qed

lemma round_up_1024_pad: "n mod 1024 \<noteq> 0 \<Longrightarrow> n + (1024 - n mod 1024) = round_up_1024 n"
proof -
  assume a: "n mod 1024 \<noteq> 0"
  define q where "q = n div 1024"
  define r where "r = n mod 1024"
  have n: "n = q * 1024 + r" by (simp add: q_def r_def)
  have r: "r < 1024" by (simp add: r_def)
  have "n + (1024 - r) = (q + 1) * 1024" using n r by simp
  then show ?thesis using round_up_div [OF a] by (simp add: q_def r_def round_up_1024_def)
qed

text \<open>
  Claim C3, as amended. For every raw image file whose first sentinel ends the header
  (the file is \<open>h0 @ sentinel @ payload\<close> and \<^verbatim>\<open>find\<close> returns the length of \<open>h0\<close>), with
  a payload of length \<open>L\<close> that does not start with the gzip magic bytes, and with the
  header length and \<open>L\<close> not multiples of 1024: \<^verbatim>\<open>_extract_bitstream\<close> returns the
  header bytes padded with the byte \<^verbatim>\<open>b"0"\<close> up to the next multiple of 1024, and a
  program of length \<open>ceil(L / 1024) * 1024\<close> equal to the payload padded with \<^verbatim>\<open>b"0"\<close>
  to that length, the padding of each section computed from its own length; the
  checksum is the digest of the whole file.
\<close>

theorem extract_pads_sections:
  assumes fpg: "fs filename = Some (h0 @ sentinel @ payload)"
    and first: "bytes_find sentinel (h0 @ sentinel @ payload) 0 = int (length h0)"
    and nogz: "\<not> startswith payload [0x1F, 0x8B, 0x08]"
    and hlen: "length (h0 @ sentinel) mod 1024 \<noteq> 0"
    and plen: "length payload mod 1024 \<noteq> 0"
  shows "\<exists>header prog md5.
           extract_bitstream z m fs filename = Inr (header, prog, md5) \<and>
           header = (h0 @ sentinel) @
             replicate (round_up_1024 (length (h0 @ sentinel)) - length (h0 @ sentinel)) 0x30 \<and>
           length header = round_up_1024 (length (h0 @ sentinel)) \<and>
           prog = payload @ replicate (round_up_1024 (length payload) - length payload) 0x30 \<and>
           length prog = round_up_1024 (length payload) \<and>
           md5 = m (h0 @ sentinel @ payload)"
proof -
  have a: "1024 - length (h0 @ sentinel) mod 1024 = round_up_1024 (length (h0 @ sentinel)) - length (h0 @ sentinel)"
    using round_up_1024_pad [OF hlen] by linarith
  have b: "1024 - length payload mod 1024 = round_up_1024 (length payload) - length payload"
    using round_up_1024_pad [OF plen] by linarith
  have c: "length (h0 @ sentinel) \<le> round_up_1024 (length (h0 @ sentinel))"
    using round_up_1024_pad [OF hlen] by linarith
  have d: "length payload \<le> round_up_1024 (length payload)"
    using round_up_1024_pad [OF plen] by linarith
  let ?H = "(h0 @ sentinel) @
    replicate (round_up_1024 (length (h0 @ sentinel)) - length (h0 @ sentinel)) (0x30::byte)"
  let ?P = "payload @ replicate (round_up_1024 (length payload) - length payload) (0x30::byte)"
  have e: "extract_bitstream z m fs filename = Inr (?H, ?P, m (h0 @ sentinel @ payload))"
    unfolding extract_bitstream_split [where fs = fs and filename = filename, OF fpg first] Let_def a b
    using nogz by (simp only: if_False)
  have lh: "length ?H = round_up_1024 (length (h0 @ sentinel))"
    using c by simp
  have lp: "length ?P = round_up_1024 (length payload)"
    using d by simp
  from e lh lp show ?thesis by blast
qed

lemma sentinel_length: "length sentinel = 7"
  by (simp add: sentinel_def)

text \<open>The theorem at a header of 10 bytes and a payload of 2 bytes.\<close>

theorem extract_pads_sections_witness:
  "bytes_find sentinel ([1, 2, 3] @ sentinel @ [4, 5]) 0 = int (length [1, 2, 3 :: byte]) \<and>
   \<not> startswith [4, 5 :: byte] [0x1F, 0x8B, 0x08] \<and>
   length ([1, 2, 3] @ sentinel) mod 1024 \<noteq> 0 \<and> length [4, 5 :: byte] mod 1024 \<noteq> 0 \<and>
   (\<exists>header prog md5.
      extract_bitstream no_zlib (\<lambda>_. ''d41d8cd9'') [''a.fpg'' \<mapsto> [1, 2, 3] @ sentinel @ [4, 5]] ''a.fpg''
        = Inr (header, prog, md5) \<and>
      header = ([1, 2, 3] @ sentinel) @
        replicate (round_up_1024 (length ([1, 2, 3] @ sentinel)) - length ([1, 2, 3] @ sentinel)) 0x30 \<and>
      length header = round_up_1024 (length ([1, 2, 3] @ sentinel)) \<and>
      prog = [4, 5] @ replicate (round_up_1024 (length [4, 5 :: byte]) - length [4, 5 :: byte]) 0x30 \<and>
      length prog = round_up_1024 (length [4, 5 :: byte]) \<and>
      md5 = (\<lambda>_. ''d41d8cd9'') ([1, 2, 3] @ sentinel @ [4, 5]))"
proof -
  have fpg: "[''a.fpg'' \<mapsto> [1, 2, 3] @ sentinel @ [4, 5 :: byte]] ''a.fpg'' = Some ([1, 2, 3] @ sentinel @ [4, 5])"
    by simp
  have first: "bytes_find sentinel ([1, 2, 3] @ sentinel @ [4, 5]) 0 = int (length [1, 2, 3 :: byte])"
    by (simp add: sentinel_def startswith_def)
  have nogz: "\<not> startswith [4, 5 :: byte] [0x1F, 0x8B, 0x08]"
    by (simp add: startswith_def)
  have hlen: "length ([1, 2, 3] @ sentinel) mod 1024 \<noteq> 0"
    by (simp add: sentinel_length)
  have plen: "length [4, 5 :: byte] mod 1024 \<noteq> 0"
    by simp
  from extract_pads_sections [where fs = "[''a.fpg'' \<mapsto> [1, 2, 3] @ sentinel @ [4, 5]]"
      and z = no_zlib and m = "\<lambda>_. ''d41d8cd9''", OF fpg first nogz hlen plen] first nogz hlen plen
  show ?thesis by (intro conjI)
qed

lemma extract_bitstream_no_payload:
  "extract_bitstream z m [''a.fpg'' \<mapsto> sentinel] ''a.fpg'' =
     Inr (sentinel @ replicate 1017 0x30, replicate 1024 0x30, m sentinel)"
proof -
  have first: "bytes_find sentinel ([] @ sentinel @ []) 0 = int (length ([] :: bytes))"
    by (simp add: sentinel_def startswith_def)
  show ?thesis
    using extract_bitstream_split [where fs = "[''a.fpg'' \<mapsto> sentinel]" and filename = "''a.fpg''"
        and ?h0.0 = "[]" and payload = "[]" and z = z and m = m, OF _ first]
    by (simp add: sentinel_length startswith_def)
qed

lemma extract_bitstream_gzip:
  "extract_bitstream z m [''a.fpg'' \<mapsto> sentinel @ [0x1F, 0x8B, 0x08]] ''a.fpg'' =
     (case z ([0x1F, 0x8B, 0x08] @ replicate 1021 0x30) of
        Inl e \<Rightarrow> Inl e
      | Inr unpacked \<Rightarrow> Inr (sentinel @ replicate 1017 0x30, unpacked, m (sentinel @ [0x1F, 0x8B, 0x08])))"
proof -
  have first: "bytes_find sentinel ([] @ sentinel @ [0x1F, 0x8B, 0x08]) 0 = int (length ([] :: bytes))"
    by (simp add: sentinel_def startswith_def)
  show ?thesis
    using extract_bitstream_split [where fs = "[''a.fpg'' \<mapsto> sentinel @ [0x1F, 0x8B, 0x08]]"
        and filename = "''a.fpg''" and ?h0.0 = "[]" and payload = "[0x1F, 0x8B, 0x08]" and z = z and m = m,
        OF _ first]
    by (simp add: sentinel_length startswith_def cong: sum.case_cong)
qed

text \<open>
  The claim as stated fails in two ways. A file that ends with the sentinel has a
  payload of length 0, and the program returned has 1024 bytes, not
  \<open>ceil(0 / 1024) * 1024 = 0\<close>: a section whose length is a multiple of 1024 gets a
  whole block of padding. And a payload that starts with the gzip magic bytes is
  handed to the decompressor, whose result or exception is what the call gives.
\<close>

theorem extract_padding_counterexample:
  "(\<forall>z m. \<exists>header prog md5.
      extract_bitstream z m [''a.fpg'' \<mapsto> sentinel] ''a.fpg'' = Inr (header, prog, md5) \<and>
      length prog = 1024 \<and> round_up_1024 0 = 0) \<and>
   (\<forall>m. extract_bitstream no_zlib m [''a.fpg'' \<mapsto> sentinel @ [0x1F, 0x8B, 0x08]] ''a.fpg'' =
      Inl (ExternalError ''zlib.error''))"
  by (simp add: extract_bitstream_no_payload extract_bitstream_gzip round_up_1024_def no_zlib_def)

text \<open>
  Claim C4 says that a file without the sentinel makes the extraction fail. In the
  code \<^verbatim>\<open>find\<close> returns \<open>-1\<close>, the header offset becomes 6, and the call returns a
  split after the sixth byte: for the file \<^verbatim>\<open>b"abcdefgh"\<close> the header is
  \<^verbatim>\<open>b"abcdef"\<close> and the program \<^verbatim>\<open>b"gh"\<close>, each with its padding.
\<close>

theorem extract_without_sentinel:
  "bytes_find sentinel [0x61, 0x62, 0x63, 0x64, 0x65, 0x66, 0x67, 0x68] 0 = - 1 \<and>
   extract_bitstream z m [''a.fpg'' \<mapsto> [0x61, 0x62, 0x63, 0x64, 0x65, 0x66, 0x67, 0x68]] ''a.fpg'' =
     Inr ([0x61, 0x62, 0x63, 0x64, 0x65, 0x66] @ replicate 1018 0x30,
          [0x67, 0x68] @ replicate 1022 0x30,
          m [0x61, 0x62, 0x63, 0x64, 0x65, 0x66, 0x67, 0x68])"
proof -
  let ?fpg = "[0x61, 0x62, 0x63, 0x64, 0x65, 0x66, 0x67, 0x68] :: bytes"
  have f: "bytes_find sentinel ?fpg 0 = - 1"
    by (simp add: sentinel_def startswith_def)
  have off: "bytes_find sentinel ?fpg 0 + 7 = 6"
    by (simp only: f)
  have h: "py_slice ?fpg 0 6 = [0x61, 0x62, 0x63, 0x64, 0x65, 0x66]"
    using py_slice_inside [of 0 6 ?fpg] by simp
  have p: "py_slice ?fpg 6 (int (length ?fpg)) = [0x67, 0x68]"
    using py_slice_inside [of 6 2 ?fpg] by simp
  have n: "nat (1024 - 6 mod 1024) = 1018" "nat (1024 - (int (length ?fpg) - 6) mod 1024) = 1022"
    by simp_all
  have g: "\<not> startswith ([0x67, 0x68] @ replicate 1022 (0x30::byte)) [0x1F, 0x8B, 0x08]"
    unfolding pad_not_gzip by (simp add: startswith_def)
  have fs: "[''a.fpg'' \<mapsto> ?fpg] ''a.fpg'' = Some ?fpg" by simp
  have "extract_bitstream z m [''a.fpg'' \<mapsto> ?fpg] ''a.fpg'' =
     Inr ([0x61, 0x62, 0x63, 0x64, 0x65, 0x66] @ replicate 1018 0x30,
          [0x67, 0x68] @ replicate 1022 0x30, m ?fpg)"
    unfolding extract_bitstream_def fs option.case off Let_def h p n using g by (simp only: if_False)
  with f show ?thesis by (intro conjI)
qed

section \<open>Properties of upload\<close>

text \<open>
  Claim C5. An image is a file whose name ends in \<^verbatim>\<open>.fpg\<close> (the assertion at the top
  of \<^verbatim>\<open>upload_to_ram_and_program\<close>) and for which the template recovery returns a
  template, possibly none. Whenever the session's template is set to \<open>t\<close> and the
  image's template differs from it, the upload fails with the template-mismatch
  \<^verbatim>\<open>RuntimeError\<close>; the world is returned unchanged, so nothing has been written to the
  streaming device, and the session is returned unchanged, so its template is still
  \<open>t\<close>.
\<close>

theorem upload_template_mismatch:
  assumes "endswith filename ''.fpg''"
    and "fpg_template s = Some t"
    and "parse_template_meta parse_fpg filename = Inr template"
    and "template \<noteq> Some t"
  shows "upload_to_ram_and_program parse_fpg z m s w filename =
           (Inl (RuntimeError (TemplateMismatch t template)), s, w)"
  using assms by (simp add: upload_to_ram_and_program_def)

text \<open>The theorem at a session locked to \<open>alpha\<close> and an image that declares \<open>beta\<close>.\<close>

theorem upload_template_mismatch_witness:
  "endswith ''b.fpg'' ''.fpg'' \<and>
   fpg_template (fresh_session\<lparr>fpg_template := Some ''alpha''\<rparr>) = Some ''alpha'' \<and>
   parse_template_meta (\<lambda>_. Inr ([(''77777'', [(''pr_template'', ''beta'')])], ())) ''b.fpg'' = Inr (Some ''beta'') \<and>
   upload_to_ram_and_program (\<lambda>_. Inr ([(''77777'', [(''pr_template'', ''beta'')])], ())) no_zlib (\<lambda>_. [])
     (fresh_session\<lparr>fpg_template := Some ''alpha''\<rparr>) empty_world ''b.fpg'' =
     (Inl (RuntimeError (TemplateMismatch ''alpha'' (Some ''beta''))),
      fresh_session\<lparr>fpg_template := Some ''alpha''\<rparr>, empty_world)"
proof -
  have a: "endswith ''b.fpg'' ''.fpg''"
    by (simp add: endswith_def startswith_def)
  have b: "fpg_template (fresh_session\<lparr>fpg_template := Some ''alpha''\<rparr>) = Some ''alpha''"
    by simp
  have c: "parse_template_meta (\<lambda>_. Inr ([(''77777'', [(''pr_template'', ''beta'')])], ())) ''b.fpg'' = Inr (Some ''beta'')"
    by (simp add: parse_template_meta_def)
  have d: "Some ''beta'' \<noteq> Some ''alpha''" by simp
  from upload_template_mismatch [OF a b c d, of no_zlib "\<lambda>_. []" empty_world] a b c
  show ?thesis by (intro conjI)
qed

text \<open>
  Claim C10, as amended. For every image for which the parser returns a header that
  has no section, or whose first section has no \<^verbatim>\<open>pr_template\<close> key, the template
  recovery returns \<^verbatim>\<open>None\<close> and does not raise. Consequently, for a file name that ends
  in \<^verbatim>\<open>.fpg\<close>: uploading it into a session with a recorded template fails with the
  template-mismatch error and changes nothing; uploading it into a session with no
  recorded template fails only if the extraction of the file fails, and otherwise
  returns \<^verbatim>\<open>True\<close>, writes the program to the streaming device, and leaves the session,
  with no template, as it was.
\<close>

theorem upload_untemplated_image:
  assumes "endswith filename ''.fpg''"
    and "parse_fpg filename = Inr (hdr, r)"
    and "hdr = [] \<or> map_of (snd (hd hdr)) ''pr_template'' = None"
  shows "parse_template_meta parse_fpg filename = Inr None \<and>
         (\<forall>t. fpg_template s = Some t \<longrightarrow>
            upload_to_ram_and_program parse_fpg z m s w filename =
              (Inl (RuntimeError (TemplateMismatch t None)), s, w)) \<and>
         (fpg_template s = None \<longrightarrow>
            upload_to_ram_and_program parse_fpg z m s w filename =
              (case extract_bitstream z m (files w) filename of
                 Inl e \<Rightarrow> (Inl e, s, w)
               | Inr (header, bitstream, md5) \<Rightarrow>
                   (Inr True, s, w\<lparr>written := written w @ [(axid_dev s, bitstream)]\<rparr>)))"
proof -
  have t: "parse_template_meta parse_fpg filename = Inr None"
    using assms(2,3) by (cases hdr) (auto simp: parse_template_meta_def)
  show ?thesis
    using assms(1) by (auto simp: t upload_to_ram_and_program_def split: sum.splits)
qed

text \<open>
  When the parser itself raises, the template recovery raises: the call of
  \<^verbatim>\<open>parse_fpg\<close> is not inside the \<^verbatim>\<open>try\<close>.
\<close>

theorem parse_template_meta_raises_counterexample:
  "parse_template_meta
     (\<lambda>_. Inl (ExternalError ''not an fpg file'') :: error + fpg_header \<times> unit) ''b.fpg'' =
   Inl (ExternalError ''not an fpg file'')"
  by (simp add: parse_template_meta_def)

text \<open>
  The theorem at an image whose only section has no \<^verbatim>\<open>pr_template\<close> key, uploaded
  into a session locked to \<open>alpha\<close> and into a fresh session.
\<close>

theorem upload_untemplated_image_witness:
  "parse_template_meta (\<lambda>_. Inr ([(''77777'', [(''builddate'', ''2020'')])], ())) ''b.fpg'' = Inr None \<and>
   upload_to_ram_and_program (\<lambda>_. Inr ([(''77777'', [(''builddate'', ''2020'')])], ())) no_zlib (\<lambda>_. [])
     (fresh_session\<lparr>fpg_template := Some ''alpha''\<rparr>)
     \<lparr>files = [''b.fpg'' \<mapsto> [1, 2, 3] @ sentinel @ [4, 5]], written = []\<rparr> ''b.fpg'' =
     (Inl (RuntimeError (TemplateMismatch ''alpha'' None)),
      fresh_session\<lparr>fpg_template := Some ''alpha''\<rparr>,
      \<lparr>files = [''b.fpg'' \<mapsto> [1, 2, 3] @ sentinel @ [4, 5]], written = []\<rparr>) \<and>
   upload_to_ram_and_program (\<lambda>_. Inr ([(''77777'', [(''builddate'', ''2020'')])], ())) no_zlib (\<lambda>_. [])
     fresh_session
     \<lparr>files = [''b.fpg'' \<mapsto> [1, 2, 3] @ sentinel @ [4, 5]], written = []\<rparr> ''b.fpg'' =
     (Inr True, fresh_session,
      \<lparr>files = [''b.fpg'' \<mapsto> [1, 2, 3] @ sentinel @ [4, 5]],
         written = [(''/dev/xdma0_h2c_1'', [4, 5] @ replicate 1022 0x30)]\<rparr>)"
proof -
  let ?P = "\<lambda>_ :: string. Inr ([(''77777'', [(''builddate'', ''2020'')])], ()) :: error + fpg_header \<times> unit"
  let ?fs = "[''b.fpg'' \<mapsto> [1, 2, 3] @ sentinel @ [4, 5 :: byte]]"
  let ?W = "\<lparr>files = ?fs, written = []\<rparr>"
  have a: "endswith ''b.fpg'' ''.fpg''"
    by (simp add: endswith_def startswith_def)
  have b: "?P ''b.fpg'' = Inr ([(''77777'', [(''builddate'', ''2020'')])], ())"
    by simp
  have c: "[(''77777'', [(''builddate'', ''2020'')])] = [] \<or>
      map_of (snd (hd [(''77777'', [(''builddate'', ''2020'')])])) ''pr_template'' = None"
    by simp
  have first: "bytes_find sentinel ([1, 2, 3] @ sentinel @ [4, 5]) 0 = int (length [1, 2, 3 :: byte])"
    by (simp add: sentinel_def startswith_def)
  have ex: "extract_bitstream no_zlib (\<lambda>_. []) ?fs ''b.fpg'' =
      Inr (([1, 2, 3] @ sentinel) @ replicate 1014 0x30, [4, 5] @ replicate 1022 0x30, [])"
    using extract_bitstream_split [where fs = ?fs and filename = "''b.fpg''" and ?h0.0 = "[1, 2, 3]"
        and payload = "[4, 5]" and z = no_zlib and m = "\<lambda>_. []", OF _ first]
    by (simp add: sentinel_length startswith_def)
  have dev: "axid_dev fresh_session = ''/dev/xdma0_h2c_1''" "fpg_template fresh_session = None"
    by (simp_all add: fresh_session_def)
  note inst = upload_untemplated_image [of "''b.fpg''" ?P _ _, OF a b c]
  have 1: "parse_template_meta ?P ''b.fpg'' = Inr None"
    using inst [of fresh_session no_zlib "\<lambda>_. []" ?W] by (rule conjunct1)
  have 2: "upload_to_ram_and_program ?P no_zlib (\<lambda>_. []) (fresh_session\<lparr>fpg_template := Some ''alpha''\<rparr>) ?W ''b.fpg'' =
     (Inl (RuntimeError (TemplateMismatch ''alpha'' None)), fresh_session\<lparr>fpg_template := Some ''alpha''\<rparr>, ?W)"
    using inst [of "fresh_session\<lparr>fpg_template := Some ''alpha''\<rparr>" no_zlib "\<lambda>_. []" ?W] by simp
  have 3: "upload_to_ram_and_program ?P no_zlib (\<lambda>_. []) fresh_session ?W ''b.fpg'' =
     (Inr True, fresh_session, \<lparr>files = ?fs, written = [(''/dev/xdma0_h2c_1'', [4, 5] @ replicate 1022 0x30)]\<rparr>)"
    using inst [of fresh_session no_zlib "\<lambda>_. []" ?W] ex by (simp add: dev)
  from 1 2 3 show ?thesis by (intro conjI)
qed

end
